theory Spec2Isabelle
  imports Complex_Main
begin

section \<open>JavaScript values read by the stream decoder\<close>

text \<open>
  The chat component (\<^verbatim>\<open>frontend/components/chat.tsx\<close>) reads each record of the
  response stream with \<^verbatim>\<open>JSON.parse\<close> and then inspects the value with property
  reads, truthiness tests, strict equality, \<^verbatim>\<open>for ... of\<close> and string concatenation.
  A string is the list of its code units; the model keeps the code units below 256.
  Every exception the component can meet inside \<^verbatim>\<open>processLine\<close> is a value of
  \<open>js_error\<close>.
\<close>

datatype js_error = SyntaxError | TypeError

text \<open>
  A parsed JSON value. A number is kept as the two things the component can observe of
  it: whether it is truthy (not zero) and the text \<^verbatim>\<open>ToString\<close> gives for it.
  An object is the list of its members in source order; a repeated key is read as its
  last occurrence.
\<close>

datatype json =
    JNull
  | JBool bool
  | JNum bool string
  | JStr string
  | JArr "json list"
  | JObj "(string \<times> json) list"

text \<open>
  The property read \<^verbatim>\<open>v.k\<close> for the keys the component uses (\<^verbatim>\<open>type\<close>,
  \<^verbatim>\<open>content\<close>, \<^verbatim>\<open>content_type\<close>, \<^verbatim>\<open>thinking\<close>, \<^verbatim>\<open>text\<close>): a TypeError on
  \<^verbatim>\<open>null\<close>, the member of an object, and \<^verbatim>\<open>undefined\<close> (\<open>None\<close>) on every other
  value, since no prototype defines these keys.
\<close>

fun getProp :: "json \<Rightarrow> string \<Rightarrow> js_error + json option" where
  "getProp JNull k = Inl TypeError"
| "getProp (JObj kvs) k = Inr (map_of (rev kvs) k)"
| "getProp v k = Inr None"

text \<open>Truthiness of a value that may be \<^verbatim>\<open>undefined\<close>.\<close>

fun truthy :: "json option \<Rightarrow> bool" where
  "truthy None = False"
| "truthy (Some JNull) = False"
| "truthy (Some (JBool b)) = b"
| "truthy (Some (JNum nz s)) = nz"
| "truthy (Some (JStr s)) = (s \<noteq> [])"
| "truthy (Some (JArr xs)) = True"
| "truthy (Some (JObj kvs)) = True"

text \<open>
  The text that \<^verbatim>\<open>str + v\<close> appends for a parsed value \<open>v\<close>. An array is joined
  with commas, a \<^verbatim>\<open>null\<close> element giving the empty text. An object gives
  \<^verbatim>\<open>[object Object]\<close> through \<^verbatim>\<open>Object.prototype.toString\<close>, unless it has a member
  named \<^verbatim>\<open>toString\<close>: that member shadows the method and is not callable, and since
  \<^verbatim>\<open>valueOf\<close> yields no primitive either, the conversion throws a TypeError.
\<close>

fun toString :: "json \<Rightarrow> js_error + string"
  and joinElements :: "json list \<Rightarrow> js_error + string" where
  "toString JNull = Inr ''null''"
| "toString (JBool b) = Inr (if b then ''true'' else ''false'')"
| "toString (JNum nz s) = Inr s"
| "toString (JStr s) = Inr s"
| "toString (JArr xs) = joinElements xs"
| "toString (JObj kvs) =
     (if ''toString'' \<in> set (map fst kvs) then Inl TypeError else Inr ''[object Object]'')"
| "joinElements [] = Inr []"
| "joinElements (x # xs) =
     (case (if x = JNull then Inr [] else toString x) of
        Inl e \<Rightarrow> Inl e
      | Inr s \<Rightarrow>
          if xs = [] then Inr s
          else (case joinElements xs of
                  Inl e \<Rightarrow> Inl e
                | Inr t \<Rightarrow> Inr (s @ '','' @ t)))"

text \<open>
  The values \<^verbatim>\<open>for (const content of v)\<close> runs over: the elements of an array, the
  characters of a string (each a one-character string; the model steps by code unit),
  and a TypeError for every value that is not iterable.
\<close>

fun iterate :: "json option \<Rightarrow> js_error + json list" where
  "iterate (Some (JArr xs)) = Inr xs"
| "iterate (Some (JStr s)) = Inr (map (\<lambda>c. JStr [c]) s)"
| "iterate v = Inl TypeError"

subsection \<open>A JSON reader for concrete records\<close>

text \<open>
  \<^verbatim>\<open>JSON.parse\<close> belongs to the JavaScript runtime, so the decoder below takes the
  parser as an argument and every general theorem holds for any parser. To run the
  decoder on concrete wire text, \<open>jsonParse\<close> reads the JSON grammar: white space,
  the three literals, strings with their escapes, arrays, objects, and integer numbers
  of at most 15 digits (their \<^verbatim>\<open>ToString\<close> is the numeral itself). \<open>None\<close> is the
  SyntaxError. Numbers with a fraction or an exponent and escapes of code units from
  256 on lie outside what \<open>jsonParse\<close> reads and are refused as well; no
  concrete record below uses them.
\<close>

definition isJsonSpace :: "char \<Rightarrow> bool" where
  "isJsonSpace c = (c = CHR '' '' \<or> c = CHR 0x09 \<or> c = CHR 0x0A \<or> c = CHR 0x0D)"

definition skipSpace :: "string \<Rightarrow> string" where
  "skipSpace s = dropWhile isJsonSpace s"

definition isDigit :: "char \<Rightarrow> bool" where
  "isDigit c = (48 \<le> (of_char c :: nat) \<and> (of_char c :: nat) \<le> 57)"

definition hexDigit :: "char \<Rightarrow> nat option" where
  "hexDigit c =
     (let n = (of_char c :: nat) in
      if 48 \<le> n \<and> n \<le> 57 then Some (n - 48)
      else if 65 \<le> n \<and> n \<le> 70 then Some (n - 55)
      else if 97 \<le> n \<and> n \<le> 102 then Some (n - 87)
      else None)"

definition unicodeEscape :: "string \<Rightarrow> char option" where
  "unicodeEscape hs =
     (case map hexDigit hs of
        [Some a, Some b, Some c, Some d] \<Rightarrow>
          if a = 0 \<and> b = 0 then Some (char_of (16 * c + d)) else None
      | _ \<Rightarrow> None)"

definition simpleEscape :: "char \<Rightarrow> char option" where
  "simpleEscape e =
     (if e = CHR 0x22 then Some (CHR 0x22)
      else if e = CHR 0x5C then Some (CHR 0x5C)
      else if e = CHR ''/'' then Some (CHR ''/'')
      else if e = CHR ''b'' then Some (CHR 0x08)
      else if e = CHR ''f'' then Some (CHR 0x0C)
      else if e = CHR ''n'' then Some (CHR 0x0A)
      else if e = CHR ''r'' then Some (CHR 0x0D)
      else if e = CHR ''t'' then Some (CHR 0x09)
      else None)"

text \<open>The rest of a string literal after its opening quote, and the text after it.\<close>

fun stringBody :: "string \<Rightarrow> (string \<times> string) option" where
  "stringBody [] = None"
| "stringBody [c] = (if c = CHR 0x22 then Some ([], []) else None)"
| "stringBody (c # e # r) =
     (if c = CHR 0x22 then Some ([], e # r)
      else if c = CHR 0x5C then
        (if e = CHR ''u'' then
           (case unicodeEscape (take 4 r) of
              None \<Rightarrow> None
            | Some ch \<Rightarrow>
                (case stringBody (drop 4 r) of
                   None \<Rightarrow> None
                 | Some (s, t) \<Rightarrow> Some (ch # s, t)))
         else
           (case simpleEscape e of
              None \<Rightarrow> None
            | Some ch \<Rightarrow>
                (case stringBody r of
                   None \<Rightarrow> None
                 | Some (s, t) \<Rightarrow> Some (ch # s, t))))
      else if (of_char c :: nat) < 32 then None
      else (case stringBody (e # r) of
              None \<Rightarrow> None
            | Some (s, t) \<Rightarrow> Some (c # s, t)))"

definition numberToken :: "string \<Rightarrow> (json \<times> string) option" where
  "numberToken s =
     (let neg = (take 1 s = ''-'');
          s1 = (if neg then drop 1 s else s);
          ds = takeWhile isDigit s1;
          r = dropWhile isDigit s1
      in if ds = [] \<or> (1 < length ds \<and> take 1 ds = ''0'') \<or> 15 < length ds then None
         else if take 1 r = ''.'' \<or> take 1 r = ''e'' \<or> take 1 r = ''E'' then None
         else Some (JNum (ds \<noteq> ''0'') (if neg \<and> ds \<noteq> ''0'' then CHR ''-'' # ds else ds), r))"

text \<open>
  The recursive descent takes the nesting it may still open as fuel; \<open>jsonParse\<close>
  starts it with the length of the text, which bounds the nesting of any JSON text.
\<close>

fun parseValue :: "nat \<Rightarrow> string \<Rightarrow> (json \<times> string) option"
  and parseElements :: "nat \<Rightarrow> string \<Rightarrow> (json list \<times> string) option"
  and parseMembers :: "nat \<Rightarrow> string \<Rightarrow> ((string \<times> json) list \<times> string) option" where
  "parseValue 0 s = None"
| "parseValue (Suc k) s =
     (case s of
        [] \<Rightarrow> None
      | c # r \<Rightarrow>
          if c = CHR 0x22 then
            (case stringBody r of
               None \<Rightarrow> None
             | Some (t, r1) \<Rightarrow> Some (JStr t, r1))
          else if c = CHR ''['' then
            (case skipSpace r of
               [] \<Rightarrow> None
             | d # r1 \<Rightarrow>
                 if d = CHR '']'' then Some (JArr [], r1)
                 else (case parseElements k (d # r1) of
                         None \<Rightarrow> None
                       | Some (vs, r2) \<Rightarrow> Some (JArr vs, r2)))
          else if c = CHR ''{'' then
            (case skipSpace r of
               [] \<Rightarrow> None
             | d # r1 \<Rightarrow>
                 if d = CHR ''}'' then Some (JObj [], r1)
                 else (case parseMembers k (d # r1) of
                         None \<Rightarrow> None
                       | Some (kvs, r2) \<Rightarrow> Some (JObj kvs, r2)))
          else if take 4 s = ''true'' then Some (JBool True, drop 4 s)
          else if take 5 s = ''false'' then Some (JBool False, drop 5 s)
          else if take 4 s = ''null'' then Some (JNull, drop 4 s)
          else numberToken s)"
| "parseElements 0 s = None"
| "parseElements (Suc k) s =
     (case parseValue k s of
        None \<Rightarrow> None
      | Some (v, r) \<Rightarrow>
          (case skipSpace r of
             [] \<Rightarrow> None
           | d # r1 \<Rightarrow>
               if d = CHR '']'' then Some ([v], r1)
               else if d = CHR '','' then
                 (case parseElements k (skipSpace r1) of
                    None \<Rightarrow> None
                  | Some (vs, r2) \<Rightarrow> Some (v # vs, r2))
               else None))"
| "parseMembers 0 s = None"
| "parseMembers (Suc k) s =
     (case s of
        [] \<Rightarrow> None
      | c # r \<Rightarrow>
          if c \<noteq> CHR 0x22 then None
          else
            (case stringBody r of
               None \<Rightarrow> None
             | Some (key, r1) \<Rightarrow>
                 (case skipSpace r1 of
                    [] \<Rightarrow> None
                  | d # r2 \<Rightarrow>
                      if d \<noteq> CHR '':'' then None
                      else
                        (case parseValue k (skipSpace r2) of
                           None \<Rightarrow> None
                         | Some (v, r3) \<Rightarrow>
                             (case skipSpace r3 of
                                [] \<Rightarrow> None
                              | e # r4 \<Rightarrow>
                                  if e = CHR ''}'' then Some ([(key, v)], r4)
                                  else if e = CHR '','' then
                                    (case parseMembers k (skipSpace r4) of
                                       None \<Rightarrow> None
                                     | Some (kvs, r5) \<Rightarrow> Some ((key, v) # kvs, r5))
                                  else None)))))"

definition jsonParse :: "string \<Rightarrow> json option" where
  "jsonParse s =
     (case parseValue (length s) (skipSpace s) of
        None \<Rightarrow> None
      | Some (v, r) \<Rightarrow> if skipSpace r = [] then Some v else None)"

section \<open>Messages, stored chats and the state of the component\<close>

datatype role = User | Assistant

record message =
  role :: role
  content :: string
  thinking :: "string option"

text \<open>\<^verbatim>\<open>StoredChat\<close>; its fields carry the prefix \<open>chat_\<close>.\<close>

record stored_chat =
  chat_id :: string
  chat_title :: string
  chat_timestamp :: string
  chat_messages :: "message list"

text \<open>
  The state of the \<^verbatim>\<open>Chat\<close> component: its \<^verbatim>\<open>useState\<close> variables and refs, under
  their own names, and the parts of the browser it acts on: the item
  \<^verbatim>\<open>deepclaude-chats\<close> of \<^verbatim>\<open>localStorage\<close> (\<open>None\<close> when absent; the stored JSON text
  is kept as the chat list it encodes), the animation frame callbacks that are
  requested and not yet run or cancelled, the counter that numbers them (from 1 on,
  so a stored handle is truthy), and the number of \<^verbatim>\<open>container.scrollTo\<close> calls made.
  The wall-clock fields (\<^verbatim>\<open>thinkingStartTime\<close>, \<^verbatim>\<open>elapsedTime\<close>), the model
  selector and the sidebar flag are left out: no operation below reads them.
\<close>

record chat_state =
  messages :: "message list"
  input :: string
  isLoading :: bool
  openThinking :: "nat option"
  isAutoScrollEnabled :: bool
  isScrolling :: bool
  chats :: "stored_chat list"
  currentChatId :: "string option"
  chatToDelete :: "string option"
  showClearConfirm :: bool
  isThinkingComplete :: bool
  currentMessageRef :: "message option"
  scrollRef :: "nat option"
  localStorage :: "stored_chat list option"
  pendingFrames :: "nat list"
  frameCounter :: nat
  scrollToCalls :: nat

text \<open>The initial values of the \<^verbatim>\<open>useState\<close> and \<^verbatim>\<open>useRef\<close> calls, over a given storage.\<close>

definition initialState :: "stored_chat list option \<Rightarrow> chat_state" where
  "initialState stored =
     \<lparr>messages = [], input = [], isLoading = False, openThinking = None,
      isAutoScrollEnabled = True, isScrolling = False, chats = [], currentChatId = None,
      chatToDelete = None, showClearConfirm = False, isThinkingComplete = False,
      currentMessageRef = None, scrollRef = None, localStorage = stored,
      pendingFrames = [], frameCounter = 0, scrollToCalls = 0\<rparr>"

subsection \<open>String helpers of the runtime\<close>

text \<open>White space as \<^verbatim>\<open>String.prototype.trim\<close> sees it, among the code units below 256.\<close>

definition isWhiteSpace :: "char \<Rightarrow> bool" where
  "isWhiteSpace c =
     (c = CHR 0x09 \<or> c = CHR 0x0A \<or> c = CHR 0x0B \<or> c = CHR 0x0C \<or> c = CHR 0x0D \<or>
      c = CHR 0x20 \<or> c = CHR 0xA0)"

text \<open>\<^verbatim>\<open>!s.trim()\<close>: the trimmed string is empty.\<close>

definition trimIsEmpty :: "string \<Rightarrow> bool" where
  "trimIsEmpty s = list_all isWhiteSpace s"

text \<open>\<^verbatim>\<open>s.startsWith(p)\<close>.\<close>

definition startsWith :: "string \<Rightarrow> string \<Rightarrow> bool" where
  "startsWith s p = (take (length p) s = p)"

text \<open>\<^verbatim>\<open>s.split(sep)\<close> for a one-character separator: never an empty list.\<close>

fun split :: "char \<Rightarrow> string \<Rightarrow> string list" where
  "split sep [] = [[]]"
| "split sep (c # cs) =
     (if c = sep then [] # split sep cs
      else (case split sep cs of
              [] \<Rightarrow> [[c]]
            | l # ls \<Rightarrow> (c # l) # ls))"

text \<open>A string or \<^verbatim>\<open>null\<close> used as a condition: the empty string is falsy too.\<close>

definition truthyId :: "string option \<Rightarrow> bool" where
  "truthyId v = (case v of None \<Rightarrow> False | Some s \<Rightarrow> s \<noteq> [])"

section \<open>The session store\<close>

text \<open>Lines 92-97: the effect that saves the chats, run after \<open>chats\<close> has changed.\<close>

definition persistEffect :: "chat_state \<Rightarrow> chat_state" where
  "persistEffect st =
     (if 0 < length (chats st) then st\<lparr>localStorage := Some (chats st)\<rparr> else st)"

text \<open>Lines 100-102.\<close>

definition generateChatTitle :: "string \<Rightarrow> string" where
  "generateChatTitle firstMessage = take 20 firstMessage"

text \<open>Lines 105-116.\<close>

definition deleteChat :: "string \<Rightarrow> chat_state \<Rightarrow> chat_state" where
  "deleteChat chatId st =
     (let st1 = st\<lparr>chats := filter (\<lambda>chat. chat_id chat \<noteq> chatId) (chats st)\<rparr>;
          st2 = (if currentChatId st = Some chatId
                 then st1\<lparr>currentChatId := None, messages := []\<rparr>
                 else st1)
      in st2\<lparr>chatToDelete := None\<rparr>)"

text \<open>Lines 119-129.\<close>

definition clearAllChats :: "chat_state \<Rightarrow> chat_state" where
  "clearAllChats st =
     st\<lparr>chats := [], currentChatId := None, messages := [], localStorage := None,
        showClearConfirm := False\<rparr>"

text \<open>
  Lines 142-160. The fresh identifier (\<^verbatim>\<open>crypto.randomUUID()\<close>) and the time stamp are
  inputs.
\<close>

definition createNewChat :: "string \<Rightarrow> string \<Rightarrow> chat_state \<Rightarrow> chat_state" where
  "createNewChat chatId now st =
     st\<lparr>chats := chats st @
           [\<lparr>chat_id = chatId, chat_title = ''New Chat'', chat_timestamp = now,
             chat_messages = []\<rparr>],
        currentChatId := Some chatId,
        messages := []\<rparr>"

text \<open>Lines 163-171: the effect run once when the component mounts.\<close>

definition mountEffect :: "string \<Rightarrow> string \<Rightarrow> chat_state \<Rightarrow> chat_state" where
  "mountEffect chatId now st =
     createNewChat chatId now
       (case localStorage st of
          None \<Rightarrow> st
        | Some parsedChats \<Rightarrow> st\<lparr>chats := parsedChats\<rparr>)"

text \<open>
  Lines 174-197: \<^verbatim>\<open>updateCurrentChat\<close>, run as an effect after \<open>messages\<close> or
  \<open>currentChatId\<close> has changed.
\<close>

definition updateCurrentChat :: "chat_state \<Rightarrow> chat_state" where
  "updateCurrentChat st =
     (if truthyId (currentChatId st) \<and> 0 < length (messages st) then
        st\<lparr>chats :=
             map (\<lambda>chat.
                    if Some (chat_id chat) = currentChatId st then
                      chat\<lparr>chat_messages := messages st,
                           chat_title :=
                             (if length (chat_messages chat) = 0 \<and> messages st \<noteq> []
                              then generateChatTitle (content (hd (messages st)))
                              else chat_title chat)\<rparr>
                    else chat)
               (chats st)\<rparr>
      else st)"

text \<open>Lines 688-690: a click on a chat of the sidebar.\<close>

definition selectChat :: "stored_chat \<Rightarrow> chat_state \<Rightarrow> chat_state" where
  "selectChat chat st = st\<lparr>currentChatId := Some (chat_id chat), messages := chat_messages chat\<rparr>"

text \<open>
  What React commits after a handler, for the store. After \<open>messages\<close> has changed the
  effect \<open>updateCurrentChat\<close> runs, and when it has set \<open>chats\<close> the saving effect runs
  in the commit that follows. After \<open>deleteChat\<close> and \<open>clearAllChats\<close> the saving
  effect runs (\<open>chats\<close> is a new array); \<open>updateCurrentChat\<close> finds no current chat
  or is not triggered. A page load starts from the initial state, runs the saving
  effect (no chats yet), the mount effect, and the saving effect again.
\<close>

definition afterMessages :: "chat_state \<Rightarrow> chat_state" where
  "afterMessages st =
     (if truthyId (currentChatId st) \<and> 0 < length (messages st)
      then persistEffect (updateCurrentChat st)
      else st)"

definition deleteChatCommitted :: "string \<Rightarrow> chat_state \<Rightarrow> chat_state" where
  "deleteChatCommitted chatId st = persistEffect (deleteChat chatId st)"

definition clearAllChatsCommitted :: "chat_state \<Rightarrow> chat_state" where
  "clearAllChatsCommitted st = persistEffect (clearAllChats st)"

definition pageLoad :: "stored_chat list option \<Rightarrow> string \<Rightarrow> string \<Rightarrow> chat_state" where
  "pageLoad stored chatId now =
     persistEffect (mountEffect chatId now (persistEffect (initialState stored)))"

section \<open>The stream decoder and the message accumulator\<close>

text \<open>
  \<^verbatim>\<open>handleSubmit\<close> has no type for stream events; the names below are the ones its
  branches stand for. A content block that takes the branch of line 530 is a thinking
  delta, one that takes the branch of line 536 a text delta; the fragment is the text
  the branch appends. \<open>Malformed\<close> is a line whose processing ends in the
  \<^verbatim>\<open>catch\<close> of line 556, \<open>Stop\<close> the record of line 552.
\<close>

datatype channel = Thinking | Text

datatype stream_event = ContentDelta channel string | Stop | Malformed

text \<open>
  Lines 530 and 536: the branch a content block takes and the text it appends. The
  property reads throw on a \<^verbatim>\<open>null\<close> block, the concatenation throws when the value
  has no string conversion.
\<close>

definition blockDelta :: "json \<Rightarrow> js_error + (channel \<times> string) option" where
  "blockDelta block =
     (case getProp block ''content_type'' of
        Inl e \<Rightarrow> Inl e
      | Inr contentType \<Rightarrow>
          (case getProp block ''thinking'' of
             Inl e \<Rightarrow> Inl e
           | Inr thinkingValue \<Rightarrow>
               (case (if contentType = Some (JStr ''thinking'') \<and> truthy thinkingValue
                      then thinkingValue else None) of
                  Some v \<Rightarrow>
                    (case toString v of
                       Inl e \<Rightarrow> Inl e
                     | Inr fragment \<Rightarrow> Inr (Some (Thinking, fragment)))
                | None \<Rightarrow>
                    (case getProp block ''text'' of
                       Inl e \<Rightarrow> Inl e
                     | Inr textValue \<Rightarrow>
                         (case (if truthy textValue then textValue else None) of
                            Some v \<Rightarrow>
                              (case toString v of
                                 Inl e \<Rightarrow> Inl e
                               | Inr fragment \<Rightarrow> Inr (Some (Text, fragment)))
                          | None \<Rightarrow> Inr None)))))"

text \<open>\<^verbatim>\<open>thinking || ""\<close> for an optional string.\<close>

definition orEmpty :: "string option \<Rightarrow> string" where
  "orEmpty v = (case v of None \<Rightarrow> [] | Some s \<Rightarrow> if s \<noteq> [] then s else [])"

text \<open>Lines 531 and 537: the two assignments to the current message.\<close>

fun accumulate :: "message \<Rightarrow> channel \<times> string \<Rightarrow> message" where
  "accumulate m (Thinking, fragment) = m\<lparr>thinking := Some (orEmpty (thinking m) @ fragment)\<rparr>"
| "accumulate m (Text, fragment) = m\<lparr>content := content m @ fragment\<rparr>"

text \<open>Lines 541-550: the updater passed to \<^verbatim>\<open>setMessages\<close>.\<close>

definition appendOrReplaceLast :: "message list \<Rightarrow> message \<Rightarrow> message list" where
  "appendOrReplaceLast prev newCurrentMessage =
     (if 0 < length prev \<and> role (prev ! (length prev - 1)) = Assistant
      then prev[length prev - 1 := newCurrentMessage]
      else prev @ [newCurrentMessage])"

text \<open>
  Lines 526-551: the loop over the content blocks. \<open>n\<close> is \<^verbatim>\<open>messages.length\<close> as
  the closure of \<^verbatim>\<open>handleSubmit\<close> holds it. An exception leaves the loop with the
  blocks before it applied; \<^verbatim>\<open>return\<close> leaves it when the ref is \<^verbatim>\<open>null\<close>.
  The updater reads the ref when React runs it; as the ref only grows during the
  stream and each update overwrites the same slot, every rendered list is the one this
  eager reading yields.
\<close>

fun processBlocks :: "nat \<Rightarrow> chat_state \<Rightarrow> json list \<Rightarrow> chat_state" where
  "processBlocks n st [] = st"
| "processBlocks n st (block # blocks) =
     (case currentMessageRef st of
        None \<Rightarrow> st
      | Some cur \<Rightarrow>
          (case blockDelta block of
             Inl e \<Rightarrow> st
           | Inr None \<Rightarrow>
               processBlocks n
                 (st\<lparr>messages := appendOrReplaceLast (messages st) cur\<rparr>) blocks
           | Inr (Some (Thinking, fragment)) \<Rightarrow>
               processBlocks n
                 (st\<lparr>currentMessageRef := Some (accumulate cur (Thinking, fragment)),
                     openThinking := Some n,
                     messages :=
                       appendOrReplaceLast (messages st) (accumulate cur (Thinking, fragment))\<rparr>)
                 blocks
           | Inr (Some (Text, fragment)) \<Rightarrow>
               processBlocks n
                 (st\<lparr>currentMessageRef := Some (accumulate cur (Text, fragment)),
                     messages :=
                       appendOrReplaceLast (messages st) (accumulate cur (Text, fragment))\<rparr>)
                 blocks))"

text \<open>Lines 519-559: \<^verbatim>\<open>processLine\<close>, over the parser \<open>parse\<close> (\<open>None\<close>: it throws).\<close>

definition processLine :: "(string \<Rightarrow> json option) \<Rightarrow> nat \<Rightarrow> chat_state \<Rightarrow> string \<Rightarrow> chat_state" where
  "processLine parse n st line =
     (if trimIsEmpty line \<or> \<not> startsWith line ''data: '' then st
      else
        (case parse (drop 6 line) of
           None \<Rightarrow> st
         | Some data \<Rightarrow>
             (case getProp data ''type'' of
                Inl e \<Rightarrow> st
              | Inr type \<Rightarrow>
                  if type = Some (JStr ''content'') then
                    (case getProp data ''content'' of
                       Inl e \<Rightarrow> st
                     | Inr c \<Rightarrow>
                         (case iterate c of
                            Inl e \<Rightarrow> st
                          | Inr blocks \<Rightarrow> processBlocks n st blocks))
                  else if type = Some (JStr ''message_stop'') then
                    st\<lparr>isThinkingComplete := True\<rparr>
                  else st)))"

text \<open>
  Lines 561-571: the read loop. The list holds the chunks the reader delivers before it
  reports \<^verbatim>\<open>done\<close> or fails, each already decoded to text; there is no buffer between
  two reads.
\<close>

definition processChunk :: "(string \<Rightarrow> json option) \<Rightarrow> nat \<Rightarrow> chat_state \<Rightarrow> string \<Rightarrow> chat_state" where
  "processChunk parse n st chunk = foldl (processLine parse n) st (split (CHR 0x0A) chunk)"

fun readLoop :: "(string \<Rightarrow> json option) \<Rightarrow> nat \<Rightarrow> chat_state \<Rightarrow> string list \<Rightarrow> chat_state" where
  "readLoop parse n st [] = st"
| "readLoop parse n st (chunk # chunks) = readLoop parse n (processChunk parse n st chunk) chunks"

subsection \<open>The events a stream decodes to\<close>

text \<open>
  The same branches, read as the events they stand for: what \<^verbatim>\<open>processLine\<close> decodes
  from one line, and the read loop from a list of chunks.
\<close>

fun blockEvents :: "json list \<Rightarrow> stream_event list" where
  "blockEvents [] = []"
| "blockEvents (block # blocks) =
     (case blockDelta block of
        Inl e \<Rightarrow> [Malformed]
      | Inr None \<Rightarrow> blockEvents blocks
      | Inr (Some (ch, fragment)) \<Rightarrow> ContentDelta ch fragment # blockEvents blocks)"

definition lineEvents :: "(string \<Rightarrow> json option) \<Rightarrow> string \<Rightarrow> stream_event list" where
  "lineEvents parse line =
     (if trimIsEmpty line \<or> \<not> startsWith line ''data: '' then []
      else
        (case parse (drop 6 line) of
           None \<Rightarrow> [Malformed]
         | Some data \<Rightarrow>
             (case getProp data ''type'' of
                Inl e \<Rightarrow> [Malformed]
              | Inr type \<Rightarrow>
                  if type = Some (JStr ''content'') then
                    (case getProp data ''content'' of
                       Inl e \<Rightarrow> [Malformed]
                     | Inr c \<Rightarrow>
                         (case iterate c of
                            Inl e \<Rightarrow> [Malformed]
                          | Inr blocks \<Rightarrow> blockEvents blocks))
                  else if type = Some (JStr ''message_stop'') then [Stop]
                  else [])))"

definition chunkEvents :: "(string \<Rightarrow> json option) \<Rightarrow> string \<Rightarrow> stream_event list" where
  "chunkEvents parse chunk = concat (map (lineEvents parse) (split (CHR 0x0A) chunk))"

definition streamEvents :: "(string \<Rightarrow> json option) \<Rightarrow> string list \<Rightarrow> stream_event list" where
  "streamEvents parse chunks = concat (map (chunkEvents parse) chunks)"

text \<open>The accumulator over events: only content deltas change the message.\<close>

fun applyEvent :: "message \<Rightarrow> stream_event \<Rightarrow> message" where
  "applyEvent m (ContentDelta ch fragment) = accumulate m (ch, fragment)"
| "applyEvent m Stop = m"
| "applyEvent m Malformed = m"

section \<open>The scroll coordinator\<close>

text \<open>
  Lines 283-290: the scroll listener, over the three measures it reads from the
  container, taken as real numbers (\<^verbatim>\<open>scrollTop\<close> may be fractional; the arithmetic
  is exact here). \<open>isScrolling\<close> is never set by the component and stays false.
\<close>

definition handleScroll :: "real \<Rightarrow> real \<Rightarrow> real \<Rightarrow> chat_state \<Rightarrow> chat_state" where
  "handleScroll scrollTop scrollHeight clientHeight st =
     (if isScrolling st then st
      else st\<lparr>isAutoScrollEnabled := (scrollHeight - (scrollTop + clientHeight) < 50)\<rparr>)"

text \<open>The browser's \<^verbatim>\<open>cancelAnimationFrame\<close>: the callback with this handle will not run.\<close>

definition cancelAnimationFrame :: "nat \<Rightarrow> chat_state \<Rightarrow> chat_state" where
  "cancelAnimationFrame h st = st\<lparr>pendingFrames := removeAll h (pendingFrames st)\<rparr>"

text \<open>
  Lines 293-309: \<^verbatim>\<open>scrollToBottom\<close> cancels the request it still holds a handle of and
  makes a new one. The container is rendered with the component, so the lookups of
  \<^verbatim>\<open>chat-container\<close> succeed.
\<close>

definition scrollToBottom :: "chat_state \<Rightarrow> chat_state" where
  "scrollToBottom st =
     (let st1 = (case scrollRef st of
                   None \<Rightarrow> st
                 | Some h \<Rightarrow> cancelAnimationFrame h st);
          h1 = Suc (frameCounter st1)
      in st1\<lparr>scrollRef := Some h1, pendingFrames := pendingFrames st1 @ [h1], frameCounter := h1\<rparr>)"

text \<open>Lines 301-308: the requested callback scrolls to the end and clears the ref.\<close>

definition scrollCallback :: "chat_state \<Rightarrow> chat_state" where
  "scrollCallback st = st\<lparr>scrollToCalls := Suc (scrollToCalls st), scrollRef := None\<rparr>"

text \<open>The browser paints: every callback that is still requested runs once.\<close>

definition animationFrame :: "chat_state \<Rightarrow> chat_state" where
  "animationFrame st =
     (foldl (\<lambda>s h. scrollCallback s) st (pendingFrames st))\<lparr>pendingFrames := []\<rparr>"

text \<open>
  Lines 312-316: the effect run after \<open>messages\<close> or \<open>isAutoScrollEnabled\<close> has
  changed.
\<close>

definition autoScrollEffect :: "chat_state \<Rightarrow> chat_state" where
  "autoScrollEffect st =
     (if isAutoScrollEnabled st \<and> 0 < length (messages st) then scrollToBottom st else st)"

text \<open>A growth of the transcript as the coordinator sees it: a new list, then the effect.\<close>

definition contentGrowth :: "message list \<Rightarrow> chat_state \<Rightarrow> chat_state" where
  "contentGrowth ms st = autoScrollEffect (st\<lparr>messages := ms\<rparr>)"

section \<open>A submission\<close>

text \<open>Lines 437-461: the chat is created when there is none, the user message is added.\<close>

definition submitStart :: "string \<Rightarrow> string \<Rightarrow> chat_state \<Rightarrow> chat_state" where
  "submitStart newId now st =
     (let st1 = (if \<not> truthyId (currentChatId st)
                 then st\<lparr>chats := chats st @
                              [\<lparr>chat_id = newId, chat_title = generateChatTitle (input st),
                                chat_timestamp = now, chat_messages = []\<rparr>],
                          currentChatId := Some newId\<rparr>
                 else st)
      in st1\<lparr>messages := messages st1 @ [\<lparr>role = User, content = input st, thinking = None\<rparr>],
             input := [],
             isLoading := True,
             isThinkingComplete := False\<rparr>)"

text \<open>Lines 505-517: the current message and the empty assistant message of the list.\<close>

definition placeholder :: message where
  "placeholder = \<lparr>role = Assistant, content = [], thinking = Some []\<rparr>"

definition streamStart :: "chat_state \<Rightarrow> chat_state" where
  "streamStart st =
     st\<lparr>currentMessageRef := Some placeholder, messages := messages st @ [placeholder]\<rparr>"

text \<open>Lines 580-586: the \<^verbatim>\<open>finally\<close> block.\<close>

definition submitFinally :: "chat_state \<Rightarrow> chat_state" where
  "submitFinally st =
     (let st1 = st\<lparr>isLoading := False\<rparr>
      in case scrollRef st1 of
           None \<Rightarrow> st1
         | Some h \<Rightarrow> cancelAnimationFrame h st1)"

text \<open>
  The read loop with the store's effects committed between two reads. The scroll effect
  of the same commits acts on the scroll fields only and is followed in the section
  above.
\<close>

fun streamChunks :: "(string \<Rightarrow> json option) \<Rightarrow> nat \<Rightarrow> chat_state \<Rightarrow> string list \<Rightarrow> chat_state" where
  "streamChunks parse n st [] = st"
| "streamChunks parse n st (chunk # chunks) =
     streamChunks parse n (afterMessages (processChunk parse n st chunk)) chunks"

text \<open>
  Lines 424-594: \<^verbatim>\<open>handleSubmit\<close>. \<open>response\<close> is \<open>None\<close> when the request fails
  or has no body to read, and else the chunks read from it.
\<close>

definition handleSubmit ::
  "(string \<Rightarrow> json option) \<Rightarrow> string \<Rightarrow> string \<Rightarrow> string \<Rightarrow> string list option \<Rightarrow>
   chat_state \<Rightarrow> chat_state" where
  "handleSubmit parse anthropicApiToken newId now response st =
     (if trimIsEmpty (input st) \<or> isLoading st then st
      else if anthropicApiToken = [] then st
      else
        (let n = length (messages st);
             st1 = afterMessages (submitStart newId now st)
         in submitFinally
              (case response of
                 None \<Rightarrow> st1
               | Some chunks \<Rightarrow> streamChunks parse n (afterMessages (streamStart st1)) chunks)))"

section \<open>Notions used in the statements\<close>


text \<open>The chat of a given id, as the sidebar shows it: the first of that id.\<close>

definition findChat :: "string \<Rightarrow> stored_chat list \<Rightarrow> stored_chat option" where
  "findChat chatId cs = find (\<lambda>chat. chat_id chat = chatId) cs"

text \<open>
  The current chat \<open>cid\<close> is stored with title \<open>t\<close> and some message, and the
  transcript is not empty.
\<close>

definition titled :: "string \<Rightarrow> string \<Rightarrow> chat_state \<Rightarrow> bool" where
  "titled cid t st =
     (currentChatId st = Some cid \<and> messages st \<noteq> [] \<and>
      (case findChat cid (chats st) of
         None \<Rightarrow> False
       | Some c \<Rightarrow> chat_title c = t \<and> chat_messages c \<noteq> []))"

text \<open>Chunks cut at line ends: every chunk but the last ends with a line feed.\<close>

definition lineAligned :: "string list \<Rightarrow> bool" where
  "lineAligned chunks = list_all (\<lambda>c. c \<noteq> [] \<and> last c = CHR 0x0A) (butlast chunks)"





text \<open>
  At most one animation frame request is pending, and it is the one whose handle the
  ref holds.
\<close>

definition atMostOnePending :: "chat_state \<Rightarrow> bool" where
  "atMostOnePending st =
     (pendingFrames st = [] \<or> map Some (pendingFrames st) = [scrollRef st])"

text \<open>
  A growth burst: the transcript changes several times in a row, the scroll effect
  running after each change, with no animation frame in between.
\<close>

definition growthBurst :: "message list list \<Rightarrow> chat_state \<Rightarrow> chat_state" where
  "growthBurst mss st = foldl (\<lambda>s ms. contentGrowth ms s) st mss"

section \<open>Sample data\<close>

text \<open>Concrete chats, states and wire text, on which the theorems below are run.\<close>

definition chatA :: stored_chat where
  "chatA =
     \<lparr>chat_id = ''a'', chat_title = ''Hi'', chat_timestamp = ''t1'',
      chat_messages =
        [\<lparr>role = User, content = ''Hi'', thinking = None\<rparr>,
         \<lparr>role = Assistant, content = ''Hello'', thinking = Some []\<rparr>]\<rparr>"

definition chatB :: stored_chat where
  "chatB =
     \<lparr>chat_id = ''b'', chat_title = ''New Chat'', chat_timestamp = ''t2'', chat_messages = []\<rparr>"

text \<open>Two saved chats, the first of them selected.\<close>

definition twoChats :: chat_state where
  "twoChats =
     (initialState (Some [chatA, chatB]))
       \<lparr>chats := [chatA, chatB], currentChatId := Some ''a'', messages := chat_messages chatA\<rparr>"

text \<open>One saved chat, selected.\<close>

definition oneChat :: chat_state where
  "oneChat =
     (initialState (Some [chatA]))
       \<lparr>chats := [chatA], currentChatId := Some ''a'', messages := chat_messages chatA\<rparr>"

text \<open>A new chat in which the user has typed the question of the specification's example.\<close>

definition freshChat :: chat_state where
  "freshChat =
     (createNewChat ''c1'' ''t0'' (initialState None))\<lparr>input := ''How many r's in strawberry?''\<rparr>"

text \<open>The four records of the specification's example, delivered in two reads.\<close>

definition exampleChunks :: "string list" where
  \<open>exampleChunks =
    [''data: {"type":"content","content":[{"content_type":"thinking","thinking":"Let's "}]}\<newline>data: {"type":"content","content":[{"content_type":"thinking","thinking":"see."}]}\<newline>'',
     ''data: {"type":"content","content":[{"text":"42"}]}\<newline>\<newline>data: {"type":"message_stop"}\<newline>'']\<close>

text \<open>
  Single lines of the wire: thinking deltas, the same thinking text in one record, a text
  delta, the end of the stream, and a text delta cut in two inside the record.
\<close>

definition thinkingLine1 :: string where
  \<open>thinkingLine1 =
     ''data: {"type":"content","content":[{"content_type":"thinking","thinking":"Let's "}]}''\<close>

definition thinkingLine2 :: string where
  \<open>thinkingLine2 =
     ''data: {"type":"content","content":[{"content_type":"thinking","thinking":"see."}]}''\<close>

definition thinkingLine12 :: string where
  \<open>thinkingLine12 =
     ''data: {"type":"content","content":[{"content_type":"thinking","thinking":"Let's see."}]}''\<close>

definition textLine :: string where
  \<open>textLine = ''data: {"type":"content","content":[{"text":"42"}]}''\<close>

definition stopLine :: string where
  \<open>stopLine = ''data: {"type":"message_stop"}''\<close>

definition brokenLine :: string where
  \<open>brokenLine = ''data: {"type":"content","content":[{"te''\<close>

definition brokenRest :: string where
  \<open>brokenRest = ''xt":"42"}]}''\<close>

text \<open>A stream that has just begun, after one user message.\<close>

definition streamBegun :: chat_state where
  "streamBegun =
     streamStart ((initialState None)\<lparr>messages := [\<lparr>role = User, content = ''Hi'', thinking = None\<rparr>]\<rparr>)"

text \<open>A freshly loaded component that shows one message; the view is at the bottom.\<close>

definition viewing :: chat_state where
  "viewing = (initialState None)\<lparr>messages := [\<lparr>role = User, content = ''Hi'', thinking = None\<rparr>]\<rparr>"


section \<open>Auxiliary facts\<close>

subsection \<open>The stream\<close>




lemma role_accumulate: "role (accumulate m d) = role m"
  by (cases d; cases "fst d") auto

lemma role_applyEvent: "role (applyEvent m e) = role m"
  by (cases e) (simp_all add: role_accumulate)


lemma processBlocks_current:
  "currentMessageRef st = Some m \<Longrightarrow>
     currentMessageRef (processBlocks n st bs) = Some (foldl applyEvent m (blockEvents bs))"
proof (induction bs arbitrary: st m)
  case Nil
  then show ?case by simp
next
  case (Cons b bs)
  show ?case
  proof (cases "blockDelta b")
    case (Inl e)
    then show ?thesis using Cons.prems by simp
  next
    case (Inr d)
    show ?thesis
    proof (cases d)
      case None
      then show ?thesis using Cons.IH[of "st\<lparr>messages := appendOrReplaceLast (messages st) m\<rparr>" m] Cons.prems Inr
        by simp
    next
      case (Some ev)
      obtain ch f where ev: "ev = (ch, f)" by (cases ev)
      show ?thesis
      proof (cases ch)
        case Thinking
        then show ?thesis
          using Cons.IH[of "st\<lparr>currentMessageRef := Some (accumulate m (Thinking, f)), openThinking := Some n,
                       messages := appendOrReplaceLast (messages st) (accumulate m (Thinking, f))\<rparr>" "accumulate m (Thinking, f)"]
            Cons.prems Inr Some ev by (simp del: accumulate.simps)
      next
        case Text
        then show ?thesis
          using Cons.IH[of "st\<lparr>currentMessageRef := Some (accumulate m (Text, f)),
                       messages := appendOrReplaceLast (messages st) (accumulate m (Text, f))\<rparr>" "accumulate m (Text, f)"]
            Cons.prems Inr Some ev by (simp del: accumulate.simps)
      qed
    qed
  qed
qed


lemma processLine_current:
  assumes "currentMessageRef st = Some m"
  shows "currentMessageRef (processLine parse n st line) =
         Some (foldl applyEvent m (lineEvents parse line))"
  using assms processBlocks_current[OF assms]
  by (simp add: processLine_def lineEvents_def split: option.splits sum.splits)


lemma lines_current:
  "currentMessageRef st = Some m \<Longrightarrow>
     currentMessageRef (foldl (processLine parse n) st ls) =
     Some (foldl applyEvent m (concat (map (lineEvents parse) ls)))"
proof (induction ls arbitrary: st m)
  case Nil
  then show ?case by simp
next
  case (Cons l ls)
  from processLine_current[OF Cons.prems, of parse n l]
    Cons.IH[of "processLine parse n st l" "foldl applyEvent m (lineEvents parse l)"]
  show ?case by simp
qed


lemma readLoop_current:
  "currentMessageRef st = Some m \<Longrightarrow>
     currentMessageRef (readLoop parse n st chunks) =
     Some (foldl applyEvent m (streamEvents parse chunks))"
proof (induction chunks arbitrary: st m)
  case Nil
  then show ?case by (simp add: streamEvents_def)
next
  case (Cons c cs)
  from lines_current[OF Cons.prems, of parse n "split (CHR 0x0A) c"]
    Cons.IH[of "processChunk parse n st c" "foldl applyEvent m (chunkEvents parse c)"]
  show ?case by (simp add: processChunk_def streamEvents_def chunkEvents_def)
qed








lemma orEmpty_Some: "orEmpty (Some s) = s"
  by (simp add: orEmpty_def)

lemma orEmpty_nullish: "orEmpty v = (case v of None \<Rightarrow> [] | Some t \<Rightarrow> t)"
  by (simp add: orEmpty_def split: option.splits)

lemma accumulate_split: "accumulate (accumulate m (ch, f1)) (ch, f2) = accumulate m (ch, f1 @ f2)"
  by (cases ch) (simp_all add: orEmpty_Some)

lemma applyEvent_split:
  "foldl applyEvent m (es1 @ [ContentDelta ch f1, ContentDelta ch f2] @ es2) =
   foldl applyEvent m (es1 @ [ContentDelta ch (f1 @ f2)] @ es2)"
  by (simp add: accumulate_split del: accumulate.simps)

lemma blockEvents_no_Stop: "Stop \<notin> set (blockEvents bs)"
  by (induction bs) (auto split: sum.splits option.splits)

lemma lineEvents_Stop:
  assumes "lineEvents parse line = [Stop]"
  shows "processLine parse n st line = st\<lparr>isThinkingComplete := True\<rparr>"
proof -
  have nb: "blockEvents bs \<noteq> [Stop]" for bs
    using blockEvents_no_Stop[of bs] by auto
  have g: "\<not> (trimIsEmpty line \<or> \<not> startsWith line ''data: '')"
  proof
    assume "trimIsEmpty line \<or> \<not> startsWith line ''data: ''"
    then have "lineEvents parse line = []" by (simp add: lineEvents_def)
    with assms show False by simp
  qed
  obtain data where p: "parse (drop 6 line) = Some data"
    using assms g by (cases "parse (drop 6 line)") (simp_all add: lineEvents_def)
  obtain ty where t: "getProp data ''type'' = Inr ty"
    using assms g p by (cases "getProp data ''type''") (simp_all add: lineEvents_def)
  have nc: "ty \<noteq> Some (JStr ''content'')"
  proof
    assume c: "ty = Some (JStr ''content'')"
    show False
    proof (cases "getProp data ''content''")
      case (Inl e)
      then show False using assms g p t c by (simp add: lineEvents_def)
    next
      case (Inr v)
      show False
      proof (cases "iterate v")
        case (Inl e)
        then show False using assms g p t c Inr by (simp add: lineEvents_def)
      next
        case (Inr bs)
        then show False
          using assms g p t c \<open>getProp data ''content'' = Inr v\<close> nb[of bs]
          by (simp add: lineEvents_def)
      qed
    qed
  qed
  have s: "ty = Some (JStr ''message_stop'')"
    using assms g p t nc by (simp add: lineEvents_def split: if_splits)
  show ?thesis using g p t nc s by (simp add: processLine_def)
qed

lemma processBlocks_flag_rel:
  "t = s\<lparr>isThinkingComplete := b\<rparr> \<Longrightarrow>
   processBlocks n t bs = (processBlocks n s bs)\<lparr>isThinkingComplete := b\<rparr>"
proof (induction bs arbitrary: s t)
  case Nil
  then show ?case by simp
next
  case (Cons a bs)
  show ?case
  proof (cases "currentMessageRef s")
    case None
    then show ?thesis using Cons.prems by simp
  next
    case (Some cur)
    show ?thesis
    proof (cases "blockDelta a")
      case (Inl e)
      then show ?thesis using Some Cons.prems by simp
    next
      case (Inr d)
      show ?thesis
      proof (cases d)
        case None
        have "processBlocks n (t\<lparr>messages := appendOrReplaceLast (messages t) cur\<rparr>) bs =
              (processBlocks n (s\<lparr>messages := appendOrReplaceLast (messages s) cur\<rparr>) bs)
                \<lparr>isThinkingComplete := b\<rparr>"
          by (rule Cons.IH) (simp add: Cons.prems)
        then show ?thesis using Some Inr None Cons.prems by simp
      next
        case (Some ev)
        obtain ch f where ev: "ev = (ch, f)" by (cases ev)
        show ?thesis
        proof (cases ch)
          case Thinking
          let ?new = "accumulate cur (Thinking, f)"
          have "processBlocks n (t\<lparr>currentMessageRef := Some ?new, openThinking := Some n,
                        messages := appendOrReplaceLast (messages t) ?new\<rparr>) bs =
              (processBlocks n (s\<lparr>currentMessageRef := Some ?new, openThinking := Some n,
                        messages := appendOrReplaceLast (messages s) ?new\<rparr>) bs)
                \<lparr>isThinkingComplete := b\<rparr>"
            by (rule Cons.IH) (simp add: Cons.prems)
          then show ?thesis
            using \<open>currentMessageRef s = Some cur\<close> Inr Some ev Thinking Cons.prems
            by (simp del: accumulate.simps)
        next
          case Text
          let ?new = "accumulate cur (Text, f)"
          have "processBlocks n (t\<lparr>currentMessageRef := Some ?new,
                        messages := appendOrReplaceLast (messages t) ?new\<rparr>) bs =
              (processBlocks n (s\<lparr>currentMessageRef := Some ?new,
                        messages := appendOrReplaceLast (messages s) ?new\<rparr>) bs)
                \<lparr>isThinkingComplete := b\<rparr>"
            by (rule Cons.IH) (simp add: Cons.prems)
          then show ?thesis
            using \<open>currentMessageRef s = Some cur\<close> Inr Some ev Text Cons.prems
            by (simp del: accumulate.simps)
        qed
      qed
    qed
  qed
qed

lemma processBlocks_flag:
  "processBlocks n (st\<lparr>isThinkingComplete := b\<rparr>) bs =
   (processBlocks n st bs)\<lparr>isThinkingComplete := b\<rparr>"
  by (rule processBlocks_flag_rel) simp

lemma processLine_flag:
  "processLine parse n (st\<lparr>isThinkingComplete := True\<rparr>) line =
   (processLine parse n st line)\<lparr>isThinkingComplete := True\<rparr>"
  by (simp add: processLine_def processBlocks_flag split: option.splits sum.splits)

lemma lines_flag:
  "foldl (processLine parse n) (st\<lparr>isThinkingComplete := True\<rparr>) ls =
   (foldl (processLine parse n) st ls)\<lparr>isThinkingComplete := True\<rparr>"
  by (induction ls arbitrary: st) (simp_all add: processLine_flag)

lemma readLoop_flag:
  "readLoop parse n (st\<lparr>isThinkingComplete := True\<rparr>) chunks =
   (readLoop parse n st chunks)\<lparr>isThinkingComplete := True\<rparr>"
  by (induction chunks arbitrary: st) (simp_all add: processChunk_def lines_flag)

subsection \<open>The sample lines, decoded\<close>

lemma thinkingLine1_events: "lineEvents jsonParse thinkingLine1 = [ContentDelta Thinking ''Let's '']"
  unfolding thinkingLine1_def by code_simp

lemma textLine_events: "lineEvents jsonParse textLine = [ContentDelta Text ''42'']"
  unfolding textLine_def by code_simp

lemma brokenLine_parse: "jsonParse (drop 6 brokenLine) = None"
  unfolding brokenLine_def by code_simp

lemma thinkingLine12_events:
  "streamEvents jsonParse [thinkingLine12] = [ContentDelta Thinking ''Let's see.'']"
  unfolding thinkingLine12_def by code_simp

lemma thinkingLines_events:
  "streamEvents jsonParse [thinkingLine1, thinkingLine2] =
     [ContentDelta Thinking ''Let's '', ContentDelta Thinking ''see.'']"
  unfolding thinkingLine1_def thinkingLine2_def by code_simp

lemma stopLine_events: "lineEvents jsonParse stopLine = [Stop]"
  unfolding stopLine_def by code_simp

lemma textLine_run:
  "currentMessageRef (readLoop jsonParse 1 streamBegun [textLine]) =
     Some \<lparr>role = Assistant, content = ''42'', thinking = Some []\<rparr>"
  unfolding textLine_def streamBegun_def by code_simp

lemma stop_then_text_run:
  "currentMessageRef (readLoop jsonParse 1 streamBegun [stopLine @ CHR 0x0A # textLine]) =
     Some \<lparr>role = Assistant, content = ''42'', thinking = Some []\<rparr>"
  unfolding textLine_def stopLine_def streamBegun_def by code_simp

lemma stop_run:
  "currentMessageRef (readLoop jsonParse 1 streamBegun [stopLine]) =
     Some \<lparr>role = Assistant, content = [], thinking = Some []\<rparr>"
  unfolding stopLine_def streamBegun_def by code_simp

lemma stop_then_text_events:
  "streamEvents jsonParse [stopLine @ CHR 0x0A # textLine] = [Stop, ContentDelta Text ''42'']"
  unfolding textLine_def stopLine_def by code_simp

lemma broken_events: "streamEvents jsonParse [brokenLine, brokenRest] = [Malformed]"
  unfolding brokenLine_def brokenRest_def by code_simp

lemma whole_events: "streamEvents jsonParse [brokenLine @ brokenRest] = [ContentDelta Text ''42'']"
  unfolding brokenLine_def brokenRest_def by code_simp

lemma broken_run:
  "currentMessageRef (readLoop jsonParse 1 streamBegun [brokenLine, brokenRest]) =
     Some \<lparr>role = Assistant, content = [], thinking = Some []\<rparr>"
  unfolding brokenLine_def brokenRest_def streamBegun_def by code_simp

lemma whole_run:
  "currentMessageRef (readLoop jsonParse 1 streamBegun [brokenLine @ brokenRest]) =
     Some \<lparr>role = Assistant, content = ''42'', thinking = Some []\<rparr>"
  unfolding brokenLine_def brokenRest_def streamBegun_def by code_simp

subsection \<open>Chunks and lines\<close>

lemma split_nonempty: "split sep s \<noteq> []"
  by (induction s) (auto split: list.splits)

lemma split_append_sep: "split sep (a @ sep # b) = split sep a @ split sep b"
proof (induction a)
  case Nil
  then show ?case by simp
next
  case (Cons c a)
  obtain l ls where "split sep a = l # ls"
    using split_nonempty[of sep a] by (cases "split sep a") auto
  with Cons show ?case by simp
qed

lemma lineEvents_empty: "lineEvents parse [] = []"
  by (simp add: lineEvents_def trimIsEmpty_def)

lemma processLine_empty: "processLine parse n st [] = st"
  by (simp add: processLine_def trimIsEmpty_def)

lemma chunkEvents_join:
  "chunkEvents parse (a @ [CHR 0x0A]) @ chunkEvents parse b = chunkEvents parse (a @ CHR 0x0A # b)"
  using split_append_sep[of "CHR 0x0A" a "[]"] split_append_sep[of "CHR 0x0A" a b]
  by (simp add: chunkEvents_def lineEvents_empty)

lemma processChunk_join:
  "processChunk parse n (processChunk parse n st (a @ [CHR 0x0A])) b =
   processChunk parse n st (a @ CHR 0x0A # b)"
  using split_append_sep[of "CHR 0x0A" a "[]"] split_append_sep[of "CHR 0x0A" a b]
  by (simp add: processChunk_def processLine_empty)

subsection \<open>The store\<close>

lemma processBlocks_store:
  "chats (processBlocks n st bs) = chats st \<and>
   currentChatId (processBlocks n st bs) = currentChatId st \<and>
   localStorage (processBlocks n st bs) = localStorage st \<and>
   (messages st \<noteq> [] \<longrightarrow> messages (processBlocks n st bs) \<noteq> [])"
  by (induction bs arbitrary: st)
     (auto simp: appendOrReplaceLast_def split: option.splits sum.splits channel.splits)

lemma processLine_store:
  "chats (processLine parse n st line) = chats st \<and>
   currentChatId (processLine parse n st line) = currentChatId st \<and>
   localStorage (processLine parse n st line) = localStorage st \<and>
   (messages st \<noteq> [] \<longrightarrow> messages (processLine parse n st line) \<noteq> [])"
  using processBlocks_store[of n st]
  by (simp add: processLine_def split: option.splits sum.splits)

lemma processChunk_store:
  "chats (processChunk parse n st chunk) = chats st \<and>
   currentChatId (processChunk parse n st chunk) = currentChatId st \<and>
   localStorage (processChunk parse n st chunk) = localStorage st \<and>
   (messages st \<noteq> [] \<longrightarrow> messages (processChunk parse n st chunk) \<noteq> [])"
proof -
  have "chats (foldl (processLine parse n) st ls) = chats st \<and>
   currentChatId (foldl (processLine parse n) st ls) = currentChatId st \<and>
   localStorage (foldl (processLine parse n) st ls) = localStorage st \<and>
   (messages st \<noteq> [] \<longrightarrow> messages (foldl (processLine parse n) st ls) \<noteq> [])" for ls
  proof (induction ls arbitrary: st)
    case Nil
    then show ?case by simp
  next
    case (Cons l ls)
    from Cons.IH[of "processLine parse n st l"] processLine_store[of parse n st l]
    show ?case by simp
  qed
  then show ?thesis by (simp add: processChunk_def)
qed

lemma findChat_updateCurrentChat:
  assumes "currentChatId st = Some cid" "cid \<noteq> []" "messages st \<noteq> []"
  shows "findChat cid (chats (updateCurrentChat st)) =
     map_option (\<lambda>chat. chat\<lparr>chat_messages := messages st,
                           chat_title :=
                             (if length (chat_messages chat) = 0 \<and> messages st \<noteq> []
                              then generateChatTitle (content (hd (messages st)))
                              else chat_title chat)\<rparr>) (findChat cid (chats st))"
proof -
  have "findChat cid (map g cs) = map_option h (findChat cid cs)"
    if "\<And>c. chat_id (g c) = chat_id c" "\<And>c. chat_id c = cid \<Longrightarrow> g c = h c" for g h cs
    using that by (induction cs) (auto simp: findChat_def)
  from this[of _ _ "chats st"] show ?thesis
    using assms by (simp add: updateCurrentChat_def truthyId_def)
qed

lemma titled_afterMessages:
  assumes "titled cid t st" "cid \<noteq> []"
  shows "titled cid t (afterMessages st)"
  using assms findChat_updateCurrentChat[of st cid]
  by (auto simp: titled_def afterMessages_def persistEffect_def truthyId_def updateCurrentChat_def
      split: option.splits)

lemma titled_processChunk:
  "titled cid t st \<Longrightarrow> titled cid t (processChunk parse n st chunk)"
  using processChunk_store[of parse n st chunk] by (simp add: titled_def)

lemma titled_streamChunks:
  "titled cid t st \<Longrightarrow> cid \<noteq> [] \<Longrightarrow> titled cid t (streamChunks parse n st chunks)"
proof (induction chunks arbitrary: st)
  case Nil
  then show ?case by simp
next
  case (Cons c cs)
  have "titled cid t (afterMessages (processChunk parse n st c))"
    using Cons.prems by (simp add: titled_processChunk titled_afterMessages)
  from Cons.IH[OF this Cons.prems(2)] show ?case by simp
qed

lemma titled_streamStart: "titled cid t st \<Longrightarrow> titled cid t (streamStart st)"
  by (simp add: titled_def streamStart_def)

lemma titled_submitFinally: "titled cid t st \<Longrightarrow> titled cid t (submitFinally st)"
  by (simp add: titled_def submitFinally_def cancelAnimationFrame_def Let_def split: option.splits)

lemma persistEffect_fields:
  "chats (persistEffect st) = chats st"
  "currentChatId (persistEffect st) = currentChatId st"
  "messages (persistEffect st) = messages st"
  by (simp_all add: persistEffect_def)

lemma updateCurrentChat_fields:
  "currentChatId (updateCurrentChat st) = currentChatId st"
  "messages (updateCurrentChat st) = messages st"
  by (simp_all add: updateCurrentChat_def)

lemma titled_first_message:
  assumes "currentChatId st = Some cid" "cid \<noteq> []" "findChat cid (chats st) = Some c"
    "chat_messages c = []" "messages st = []"
  shows "titled cid (take 20 (input st)) (afterMessages (submitStart newId now st))"
proof -
  let ?s1 = "submitStart newId now st"
  have s1: "currentChatId ?s1 = Some cid" "chats ?s1 = chats st"
    "messages ?s1 = [\<lparr>role = User, content = input st, thinking = None\<rparr>]"
    using assms by (simp_all add: submitStart_def truthyId_def Let_def)
  have am: "afterMessages ?s1 = persistEffect (updateCurrentChat ?s1)"
    using s1 assms(2) by (simp add: afterMessages_def truthyId_def)
  have "findChat cid (chats (updateCurrentChat ?s1)) =
      map_option (\<lambda>chat. chat\<lparr>chat_messages := messages ?s1,
                           chat_title :=
                             (if length (chat_messages chat) = 0 \<and> messages ?s1 \<noteq> []
                              then generateChatTitle (content (hd (messages ?s1)))
                              else chat_title chat)\<rparr>) (findChat cid (chats ?s1))"
    using s1 assms(2) by (intro findChat_updateCurrentChat) simp_all
  then have f: "findChat cid (chats (updateCurrentChat ?s1)) =
      Some (c\<lparr>chat_messages := messages ?s1, chat_title := take 20 (input st)\<rparr>)"
    using s1 assms(3,4) by (simp add: generateChatTitle_def)
  show ?thesis
    unfolding titled_def am
    by (simp add: persistEffect_fields updateCurrentChat_fields f s1)
qed

lemma afterMessages_kept: "localStorage st \<noteq> None \<Longrightarrow> localStorage (afterMessages st) \<noteq> None"
  by (simp add: afterMessages_def persistEffect_def updateCurrentChat_def)

lemma streamChunks_kept:
  "localStorage st \<noteq> None \<Longrightarrow> localStorage (streamChunks parse n st chunks) \<noteq> None"
proof (induction chunks arbitrary: st)
  case Nil
  then show ?case by simp
next
  case (Cons c cs)
  have "localStorage (afterMessages (processChunk parse n st c)) \<noteq> None"
    using Cons.prems processChunk_store[of parse n st c] by (simp add: afterMessages_kept)
  from Cons.IH[OF this] show ?case by simp
qed

lemma submitFinally_storage: "localStorage (submitFinally st) = localStorage st"
  by (simp add: submitFinally_def cancelAnimationFrame_def Let_def split: option.splits)

lemma handleSubmit_kept:
  assumes "localStorage st \<noteq> None"
  shows "localStorage (handleSubmit parse token newId now response st) \<noteq> None"
proof -
  have 1: "localStorage (submitStart newId now st) \<noteq> None"
    using assms by (simp add: submitStart_def Let_def)
  have 2: "localStorage (afterMessages (submitStart newId now st)) \<noteq> None"
    using 1 by (rule afterMessages_kept)
  have 3: "localStorage (afterMessages (streamStart (afterMessages (submitStart newId now st)))) \<noteq> None"
    using 2 by (intro afterMessages_kept) (simp add: streamStart_def)
  show ?thesis
    using assms 2 streamChunks_kept[OF 3]
    by (simp add: handleSubmit_def Let_def submitFinally_storage split: option.splits)
qed

subsection \<open>A whole turn\<close>













subsection \<open>Scrolling\<close>

lemma scrollToBottom_schedules:
  assumes "atMostOnePending st"
  shows "pendingFrames (scrollToBottom st) = [Suc (frameCounter st)]"
    and "scrollRef (scrollToBottom st) = Some (Suc (frameCounter st))"
    and "frameCounter (scrollToBottom st) = Suc (frameCounter st)"
    and "scrollToCalls (scrollToBottom st) = scrollToCalls st"
    and "isAutoScrollEnabled (scrollToBottom st) = isAutoScrollEnabled st"
  using assms
  by (auto simp: atMostOnePending_def scrollToBottom_def cancelAnimationFrame_def Let_def
      split: option.splits)

lemma contentGrowth_enabled:
  assumes "isAutoScrollEnabled st" "ms \<noteq> []" "atMostOnePending st"
  shows "pendingFrames (contentGrowth ms st) = [frameCounter (contentGrowth ms st)]"
    and "scrollRef (contentGrowth ms st) = Some (frameCounter (contentGrowth ms st))"
    and "scrollToCalls (contentGrowth ms st) = scrollToCalls st"
    and "isAutoScrollEnabled (contentGrowth ms st)"
proof -
  have p: "atMostOnePending (st\<lparr>messages := ms\<rparr>)"
    using assms(3) by (simp add: atMostOnePending_def)
  have c: "contentGrowth ms st = scrollToBottom (st\<lparr>messages := ms\<rparr>)"
    using assms(1,2) by (simp add: contentGrowth_def autoScrollEffect_def)
  show "pendingFrames (contentGrowth ms st) = [frameCounter (contentGrowth ms st)]"
    and "scrollRef (contentGrowth ms st) = Some (frameCounter (contentGrowth ms st))"
    and "scrollToCalls (contentGrowth ms st) = scrollToCalls st"
    and "isAutoScrollEnabled (contentGrowth ms st)"
    unfolding c using scrollToBottom_schedules[OF p] assms(1) by simp_all
qed

lemma growthBurst_enabled:
  "isAutoScrollEnabled st \<Longrightarrow> atMostOnePending st \<Longrightarrow> mss \<noteq> [] \<Longrightarrow>
   list_all (\<lambda>ms. ms \<noteq> []) mss \<Longrightarrow>
     pendingFrames (growthBurst mss st) = [frameCounter (growthBurst mss st)] \<and>
     scrollRef (growthBurst mss st) = Some (frameCounter (growthBurst mss st)) \<and>
     scrollToCalls (growthBurst mss st) = scrollToCalls st"
proof (induction mss arbitrary: st)
  case Nil
  then show ?case by simp
next
  case (Cons ms rest)
  from Cons.prems have ms: "ms \<noteq> []" and all: "list_all (\<lambda>ms. ms \<noteq> []) rest" by simp_all
  note g = contentGrowth_enabled[OF Cons.prems(1) ms Cons.prems(2)]
  show ?case
  proof (cases "rest = []")
    case True
    then show ?thesis using g by (simp add: growthBurst_def)
  next
    case False
    have p: "atMostOnePending (contentGrowth ms st)"
      using g(1,2) by (simp add: atMostOnePending_def)
    from Cons.IH[OF g(4) p False all] g(3) show ?thesis
      by (simp add: growthBurst_def)
  qed
qed

lemma growthBurst_disabled:
  "\<not> isAutoScrollEnabled st \<Longrightarrow>
     growthBurst mss st = st\<lparr>messages := last (messages st # mss)\<rparr>"
proof (induction mss arbitrary: st)
  case Nil
  then show ?case by (simp add: growthBurst_def)
next
  case (Cons ms rest)
  have c: "contentGrowth ms st = st\<lparr>messages := ms\<rparr>"
    using Cons.prems by (simp add: contentGrowth_def autoScrollEffect_def)
  have "growthBurst rest (st\<lparr>messages := ms\<rparr>) = st\<lparr>messages := ms\<rparr>\<lparr>messages := last (ms # rest)\<rparr>"
    using Cons.IH[of "st\<lparr>messages := ms\<rparr>"] Cons.prems by simp
  then show ?case using c by (simp add: growthBurst_def)
qed

lemma animationFrame_one:
  assumes "pendingFrames st = [h]"
  shows "scrollToCalls (animationFrame st) = Suc (scrollToCalls st)"
    and "pendingFrames (animationFrame st) = []"
  using assms by (simp_all add: animationFrame_def scrollCallback_def)

lemma animationFrame_none:
  assumes "pendingFrames st = []"
  shows "scrollToCalls (animationFrame st) = scrollToCalls st"
  using assms by (simp add: animationFrame_def)

lemma submitFinally_cancels:
  assumes "pendingFrames st = [h]" "scrollRef st = Some h"
  shows "pendingFrames (submitFinally st) = []"
    and "scrollToCalls (submitFinally st) = scrollToCalls st"
  using assms by (simp_all add: submitFinally_def cancelAnimationFrame_def Let_def)

lemma atMostOnePending_kept:
  assumes "atMostOnePending st"
  shows "atMostOnePending (contentGrowth ms st)"
    and "atMostOnePending (animationFrame st)"
    and "atMostOnePending (submitFinally st)"
proof -
  have p: "atMostOnePending (st\<lparr>messages := ms\<rparr>)"
    using assms by (simp add: atMostOnePending_def)
  show "atMostOnePending (contentGrowth ms st)"
    using p scrollToBottom_schedules(1,2)[OF p]
    by (simp add: contentGrowth_def autoScrollEffect_def atMostOnePending_def)
  show "atMostOnePending (animationFrame st)"
    by (simp add: animationFrame_def atMostOnePending_def)
  show "atMostOnePending (submitFinally st)"
    using assms
    by (auto simp: submitFinally_def cancelAnimationFrame_def atMostOnePending_def Let_def
        split: option.splits)
qed

subsection \<open>A transcript replaced during a stream\<close>







section \<open>Properties of the session store\<close>

text \<open>
  Claim C5. Deleting a chat removes every stored chat of that id and no other. When the
  deleted chat is the current one, no chat is current afterwards and the visible
  transcript is empty; when it is not, the current chat id and the visible transcript
  are as before. The statement is about the state React commits after \<^verbatim>\<open>deleteChat\<close>.
\<close>

theorem deleteChat_semantics:
  "chats (deleteChatCommitted chatId st) = filter (\<lambda>chat. chat_id chat \<noteq> chatId) (chats st) \<and>
   (currentChatId st = Some chatId \<longrightarrow>
      currentChatId (deleteChatCommitted chatId st) = None \<and>
      messages (deleteChatCommitted chatId st) = []) \<and>
   (currentChatId st \<noteq> Some chatId \<longrightarrow>
      currentChatId (deleteChatCommitted chatId st) = currentChatId st \<and>
      messages (deleteChatCommitted chatId st) = messages st)"
  by (simp add: deleteChatCommitted_def deleteChat_def persistEffect_def Let_def)

theorem deleteChat_semantics_witness:
  "currentChatId twoChats = Some ''a'' \<and>
   chats (deleteChatCommitted ''a'' twoChats) = [chatB] \<and>
   currentChatId (deleteChatCommitted ''a'' twoChats) = None \<and>
   messages (deleteChatCommitted ''a'' twoChats) = [] \<and>
   currentChatId twoChats \<noteq> Some ''b'' \<and>
   chats (deleteChatCommitted ''b'' twoChats) = [chatA] \<and>
   currentChatId (deleteChatCommitted ''b'' twoChats) = Some ''a'' \<and>
   messages (deleteChatCommitted ''b'' twoChats) = chat_messages chatA"
  using deleteChat_semantics[of "''a''" twoChats] deleteChat_semantics[of "''b''" twoChats]
  by (simp add: twoChats_def chatA_def chatB_def initialState_def)

text \<open>
  Claim C6. \<^verbatim>\<open>clearAllChats\<close> leaves no chat, no current chat and an empty transcript,
  and removes the stored item: the saving effect that follows finds no chat and writes
  nothing. A page load from that storage reads no chat and creates one empty chat
  titled \<^verbatim>\<open>New Chat\<close>, which is the current one.
\<close>

theorem clearAll_then_restart:
  "chats (clearAllChatsCommitted st) = [] \<and>
   currentChatId (clearAllChatsCommitted st) = None \<and>
   messages (clearAllChatsCommitted st) = [] \<and>
   localStorage (clearAllChatsCommitted st) = None \<and>
   chats (pageLoad (localStorage (clearAllChatsCommitted st)) newId now) =
     [\<lparr>chat_id = newId, chat_title = ''New Chat'', chat_timestamp = now, chat_messages = []\<rparr>] \<and>
   currentChatId (pageLoad (localStorage (clearAllChatsCommitted st)) newId now) = Some newId \<and>
   messages (pageLoad (localStorage (clearAllChatsCommitted st)) newId now) = []"
  by (simp add: clearAllChatsCommitted_def clearAllChats_def persistEffect_def pageLoad_def
      mountEffect_def createNewChat_def initialState_def)

text \<open>
  Claim C9. On the first turn of a chat, that is when the current chat is stored with no
  message yet and the transcript is empty, a submission that passes the guards of
  \<^verbatim>\<open>handleSubmit\<close> leaves the chat titled with the first 20 characters of the
  submitted message, whatever the response is. The title is derived by the effect that
  follows the insertion of the user message and is kept by every later update of the
  turn. This holds for any title the chat had, so for the placeholder
  \<^verbatim>\<open>New Chat\<close> that \<^verbatim>\<open>createNewChat\<close> gives; the witness is the example of the
  specification.
\<close>

theorem first_turn_title:
  assumes "currentChatId st = Some cid" "cid \<noteq> []" "findChat cid (chats st) = Some c"
    "chat_messages c = []" "messages st = []"
    "\<not> trimIsEmpty (input st)" "\<not> isLoading st" "anthropicApiToken \<noteq> []"
  shows "map_option chat_title
           (findChat cid (chats (handleSubmit parse anthropicApiToken newId now response st))) =
         Some (take 20 (input st))"
proof -
  let ?t = "take 20 (input st)"
  let ?s2 = "afterMessages (submitStart newId now st)"
  have t2: "titled cid ?t ?s2"
    using assms(1-5) by (rule titled_first_message)
  have "titled cid ?t (handleSubmit parse anthropicApiToken newId now response st)"
  proof (cases response)
    case None
    then show ?thesis
      using assms(6-8) titled_submitFinally[OF t2] by (simp add: handleSubmit_def)
  next
    case (Some chunks)
    have "titled cid ?t (afterMessages (streamStart ?s2))"
      using t2 assms(2) by (simp add: titled_streamStart titled_afterMessages)
    from titled_streamChunks[OF this assms(2)]
    have "titled cid ?t (submitFinally (streamChunks parse (length (messages st))
             (afterMessages (streamStart ?s2)) chunks))"
      by (rule titled_submitFinally)
    then show ?thesis
      using Some assms(6-8) by (simp add: handleSubmit_def Let_def)
  qed
  then show ?thesis by (auto simp: titled_def split: option.splits)
qed

theorem first_turn_title_witness:
  "chat_title (the (findChat ''c1'' (chats freshChat))) = ''New Chat'' \<and>
   map_option chat_title
     (findChat ''c1'' (chats (handleSubmit jsonParse ''key'' ''c2'' ''t1'' (Some exampleChunks) freshChat))) =
   Some ''How many r's in stra''"
  using first_turn_title[of freshChat "''c1''"
       "\<lparr>chat_id = ''c1'', chat_title = ''New Chat'', chat_timestamp = ''t0'', chat_messages = []\<rparr>"
       "''key''" jsonParse "''c2''" "''t1''" "Some exampleChunks"]
  by (simp add: freshChat_def createNewChat_def initialState_def findChat_def trimIsEmpty_def isWhiteSpace_def)

text \<open>
  Claim C10. The saving effect writes the stored item exactly when there is a chat, and
  writes nothing otherwise; \<^verbatim>\<open>clearAllChats\<close> removes the item; deleting a chat,
  creating one, selecting one and a whole submission never remove it. Hence deleting
  the only chat empties the list and leaves the item as it was saved before, and the
  next page load lists the deleted chat again, before the new one.
\<close>

theorem durable_record:
  "localStorage (persistEffect st) = (if chats st = [] then localStorage st else Some (chats st)) \<and>
   localStorage (clearAllChatsCommitted st) = None \<and>
   (localStorage st \<noteq> None \<longrightarrow>
      localStorage (deleteChatCommitted chatId st) \<noteq> None \<and>
      localStorage (persistEffect (createNewChat newId now st)) \<noteq> None \<and>
      localStorage (afterMessages (selectChat chat st)) \<noteq> None \<and>
      localStorage (handleSubmit parse token newId now response st) \<noteq> None) \<and>
   (chats st = [c] \<and> localStorage st = Some [c] \<longrightarrow>
      chats (deleteChatCommitted (chat_id c) st) = [] \<and>
      localStorage (deleteChatCommitted (chat_id c) st) = Some [c] \<and>
      chats (pageLoad (localStorage (deleteChatCommitted (chat_id c) st)) newId now) =
        [c, \<lparr>chat_id = newId, chat_title = ''New Chat'', chat_timestamp = now, chat_messages = []\<rparr>])"
proof -
  have a: "localStorage (persistEffect st) = (if chats st = [] then localStorage st else Some (chats st))"
    by (simp add: persistEffect_def)
  have b: "localStorage (clearAllChatsCommitted st) = None"
    by (simp add: clearAllChatsCommitted_def clearAllChats_def persistEffect_def)
  have c: "localStorage st \<noteq> None \<longrightarrow>
      localStorage (deleteChatCommitted chatId st) \<noteq> None \<and>
      localStorage (persistEffect (createNewChat newId now st)) \<noteq> None \<and>
      localStorage (afterMessages (selectChat chat st)) \<noteq> None \<and>
      localStorage (handleSubmit parse token newId now response st) \<noteq> None"
    using handleSubmit_kept[of st parse token newId now response]
      afterMessages_kept[of "selectChat chat st"]
    by (simp add: deleteChatCommitted_def deleteChat_def persistEffect_def createNewChat_def
        selectChat_def Let_def)
  have d: "chats st = [c] \<and> localStorage st = Some [c] \<longrightarrow>
      chats (deleteChatCommitted (chat_id c) st) = [] \<and>
      localStorage (deleteChatCommitted (chat_id c) st) = Some [c] \<and>
      chats (pageLoad (localStorage (deleteChatCommitted (chat_id c) st)) newId now) =
        [c, \<lparr>chat_id = newId, chat_title = ''New Chat'', chat_timestamp = now, chat_messages = []\<rparr>]"
    by (simp add: deleteChatCommitted_def deleteChat_def persistEffect_def pageLoad_def
        mountEffect_def createNewChat_def initialState_def Let_def)
  from a b c d show ?thesis by blast
qed

theorem durable_record_witness:
  "chats oneChat = [chatA] \<and> localStorage oneChat = Some [chatA] \<and>
   chats (deleteChatCommitted ''a'' oneChat) = [] \<and>
   localStorage (deleteChatCommitted ''a'' oneChat) = Some [chatA] \<and>
   chats (pageLoad (localStorage (deleteChatCommitted ''a'' oneChat)) ''n'' ''t3'') =
     [chatA, \<lparr>chat_id = ''n'', chat_title = ''New Chat'', chat_timestamp = ''t3'', chat_messages = []\<rparr>]"
proof -
  have h: "chats oneChat = [chatA] \<and> localStorage oneChat = Some [chatA]"
    by (simp add: oneChat_def initialState_def)
  have i: "chat_id chatA = ''a''"
    by (simp add: chatA_def)
  from durable_record[where st = oneChat and c = chatA and newId = "''n''" and now = "''t3''"] h
  have "chats (deleteChatCommitted (chat_id chatA) oneChat) = [] \<and>
    localStorage (deleteChatCommitted (chat_id chatA) oneChat) = Some [chatA] \<and>
    chats (pageLoad (localStorage (deleteChatCommitted (chat_id chatA) oneChat)) ''n'' ''t3'') =
      [chatA, \<lparr>chat_id = ''n'', chat_title = ''New Chat'', chat_timestamp = ''t3'', chat_messages = []\<rparr>]"
    by blast
  then have "chats (deleteChatCommitted ''a'' oneChat) = [] \<and>
    localStorage (deleteChatCommitted ''a'' oneChat) = Some [chatA] \<and>
    chats (pageLoad (localStorage (deleteChatCommitted ''a'' oneChat)) ''n'' ''t3'') =
      [chatA, \<lparr>chat_id = ''n'', chat_title = ''New Chat'', chat_timestamp = ''t3'', chat_messages = []\<rparr>]"
    unfolding i .
  with h show ?thesis by blast
qed

section \<open>Properties of the stream\<close>




text \<open>
  Claim C2. For a current message \<open>m\<close>: a line that decodes to one thinking delta with
  fragment \<open>f\<close> leaves the current message with \<open>thinking\<close> set to the former text (the
  empty text when there was none) followed by \<open>f\<close>; a line that decodes to one text
  delta appends \<open>f\<close> to \<open>content\<close>; a line whose payload does not parse leaves the
  whole state as it was. Two streams whose events differ only in that one delta is
  split in two consecutive deltas of the same channel end with the same current
  message.
\<close>

theorem accumulator_rules:
  assumes "currentMessageRef st = Some m"
  shows
    "(lineEvents parse line = [ContentDelta Thinking f] \<longrightarrow>
        currentMessageRef (processLine parse n st line) =
          Some (m\<lparr>thinking := Some ((case thinking m of None \<Rightarrow> [] | Some t \<Rightarrow> t) @ f)\<rparr>)) \<and>
     (lineEvents parse line = [ContentDelta Text f] \<longrightarrow>
        currentMessageRef (processLine parse n st line) = Some (m\<lparr>content := content m @ f\<rparr>)) \<and>
     (parse (drop 6 line) = None \<longrightarrow> processLine parse n st line = st) \<and>
     (streamEvents parse chunks = es1 @ [ContentDelta ch (f1 @ f2)] @ es2 \<and>
      streamEvents parse chunks' = es1 @ [ContentDelta ch f1, ContentDelta ch f2] @ es2 \<longrightarrow>
        currentMessageRef (readLoop parse n st chunks') =
        currentMessageRef (readLoop parse n st chunks))"
proof -
  have a: "lineEvents parse line = [ContentDelta Thinking f] \<longrightarrow>
        currentMessageRef (processLine parse n st line) =
          Some (m\<lparr>thinking := Some ((case thinking m of None \<Rightarrow> [] | Some t \<Rightarrow> t) @ f)\<rparr>)"
    using processLine_current[OF assms, of parse n line] by (simp add: orEmpty_nullish)
  have b: "lineEvents parse line = [ContentDelta Text f] \<longrightarrow>
        currentMessageRef (processLine parse n st line) = Some (m\<lparr>content := content m @ f\<rparr>)"
    using processLine_current[OF assms, of parse n line] by simp
  have c: "parse (drop 6 line) = None \<longrightarrow> processLine parse n st line = st"
    by (simp add: processLine_def)
  have d: "streamEvents parse chunks = es1 @ [ContentDelta ch (f1 @ f2)] @ es2 \<and>
      streamEvents parse chunks' = es1 @ [ContentDelta ch f1, ContentDelta ch f2] @ es2 \<longrightarrow>
        currentMessageRef (readLoop parse n st chunks') =
        currentMessageRef (readLoop parse n st chunks)"
    using readLoop_current[OF assms, of parse n chunks] readLoop_current[OF assms, of parse n chunks']
      applyEvent_split[of m es1 ch f1 f2 es2]
    by auto
  from a b c d show ?thesis by blast
qed

theorem accumulator_rules_witness:
  "currentMessageRef streamBegun = Some placeholder \<and>
   lineEvents jsonParse thinkingLine1 = [ContentDelta Thinking ''Let's ''] \<and>
   currentMessageRef (processLine jsonParse 1 streamBegun thinkingLine1) =
     Some \<lparr>role = Assistant, content = [], thinking = Some ''Let's ''\<rparr> \<and>
   lineEvents jsonParse textLine = [ContentDelta Text ''42''] \<and>
   currentMessageRef (processLine jsonParse 1 streamBegun textLine) =
     Some \<lparr>role = Assistant, content = ''42'', thinking = Some []\<rparr> \<and>
   jsonParse (drop 6 brokenLine) = None \<and>
   processLine jsonParse 1 streamBegun brokenLine = streamBegun \<and>
   streamEvents jsonParse [thinkingLine12] = [ContentDelta Thinking ''Let's see.''] \<and>
   streamEvents jsonParse [thinkingLine1, thinkingLine2] =
     [ContentDelta Thinking ''Let's '', ContentDelta Thinking ''see.''] \<and>
   currentMessageRef (readLoop jsonParse 1 streamBegun [thinkingLine1, thinkingLine2]) =
   currentMessageRef (readLoop jsonParse 1 streamBegun [thinkingLine12])"
proof -
  have c: "currentMessageRef streamBegun = Some placeholder"
    by (simp add: streamBegun_def streamStart_def)
  note r = accumulator_rules[OF c, where parse = jsonParse and n = 1]
  have 1: "currentMessageRef (processLine jsonParse 1 streamBegun thinkingLine1) =
     Some \<lparr>role = Assistant, content = [], thinking = Some ''Let's ''\<rparr>"
    using r[where line = thinkingLine1 and f = "''Let's ''"] thinkingLine1_events by (simp add: placeholder_def)
  have 2: "currentMessageRef (processLine jsonParse 1 streamBegun textLine) =
     Some \<lparr>role = Assistant, content = ''42'', thinking = Some []\<rparr>"
    using r[where line = textLine and f = "''42''"] textLine_events by (simp add: placeholder_def)
  have 3: "processLine jsonParse 1 streamBegun brokenLine = streamBegun"
    using r[where line = brokenLine] brokenLine_parse by blast
  have 4: "currentMessageRef (readLoop jsonParse 1 streamBegun [thinkingLine1, thinkingLine2]) =
   currentMessageRef (readLoop jsonParse 1 streamBegun [thinkingLine12])"
    using r[where chunks = "[thinkingLine12]" and chunks' = "[thinkingLine1, thinkingLine2]"
        and ?es1.0 = "[]" and ?es2.0 = "[]" and ch = Thinking and ?f1.0 = "''Let's ''" and ?f2.0 = "''see.''"]
      thinkingLine12_events thinkingLines_events by simp
  from c thinkingLine1_events 1 textLine_events 2 brokenLine_parse 3 thinkingLine12_events thinkingLines_events 4 show ?thesis by blast
qed

text \<open>
  Claim C3, as the code has it. A record of type \<^verbatim>\<open>message_stop\<close> sets
  \<open>isThinkingComplete\<close> and nothing else, and it does not end the decoding: the lines
  and chunks after it are processed exactly as they would be without it, the flag
  apart. The loop ends when the reader reports \<^verbatim>\<open>done\<close>.
\<close>

theorem stop_marks_only:
  "(lineEvents parse line = [Stop] \<longrightarrow>
      processLine parse n st line = st\<lparr>isThinkingComplete := True\<rparr> \<and>
      readLoop parse n (processLine parse n st line) chunks =
        (readLoop parse n st chunks)\<lparr>isThinkingComplete := True\<rparr>)"
  using lineEvents_Stop[of parse line n st] by (simp add: readLoop_flag)

theorem stop_marks_only_witness:
  "lineEvents jsonParse stopLine = [Stop] \<and>
   processLine jsonParse 1 streamBegun stopLine = streamBegun\<lparr>isThinkingComplete := True\<rparr> \<and>
   readLoop jsonParse 1 (processLine jsonParse 1 streamBegun stopLine) [textLine] =
     (readLoop jsonParse 1 streamBegun [textLine])\<lparr>isThinkingComplete := True\<rparr>"
  using stop_marks_only[of jsonParse stopLine 1 streamBegun "[textLine]"] stopLine_events
  by blast

text \<open>
  The claim as stated fails: a text delta that follows the end record in the same read
  is decoded and applied.
\<close>

theorem stop_not_terminal_counterexample:
  "streamEvents jsonParse [stopLine @ CHR 0x0A # textLine] = [Stop, ContentDelta Text ''42''] \<and>
   currentMessageRef (readLoop jsonParse 1 streamBegun [stopLine]) =
     Some \<lparr>role = Assistant, content = [], thinking = Some []\<rparr> \<and>
   currentMessageRef (readLoop jsonParse 1 streamBegun [stopLine @ CHR 0x0A # textLine]) =
     Some \<lparr>role = Assistant, content = ''42'', thinking = Some []\<rparr> \<and>
   readLoop jsonParse 1 streamBegun [stopLine @ CHR 0x0A # textLine] \<noteq>
   readLoop jsonParse 1 streamBegun [stopLine]"
proof -
  have "readLoop jsonParse 1 streamBegun [stopLine @ CHR 0x0A # textLine] \<noteq>
        readLoop jsonParse 1 streamBegun [stopLine]"
  proof
    assume "readLoop jsonParse 1 streamBegun [stopLine @ CHR 0x0A # textLine] =
        readLoop jsonParse 1 streamBegun [stopLine]"
    then have "currentMessageRef (readLoop jsonParse 1 streamBegun [stopLine @ CHR 0x0A # textLine]) =
        currentMessageRef (readLoop jsonParse 1 streamBegun [stopLine])"
      by simp
    then show False unfolding stop_then_text_run stop_run by simp
  qed
  with stop_then_text_events stop_run stop_then_text_run show ?thesis by blast
qed

text \<open>
  Claim C1. The read loop splits each chunk at line feeds and hands every piece to
  \<^verbatim>\<open>processLine\<close>; nothing is kept from one read to the next. A record whose text is
  cut by a chunk boundary is therefore decoded as two lines: the first fails to parse,
  the second does not start with \<^verbatim>\<open>data: \<close>, and the delta is lost, while the same
  bytes in one read give the delta. Decoding depends on the chunking.
\<close>

theorem split_record_is_lost:
  "concat [brokenLine, brokenRest] = concat [textLine] \<and>
   streamEvents jsonParse [textLine] = [ContentDelta Text ''42''] \<and>
   streamEvents jsonParse [brokenLine, brokenRest] = [Malformed] \<and>
   currentMessageRef (readLoop jsonParse 1 streamBegun [textLine]) =
     Some \<lparr>role = Assistant, content = ''42'', thinking = Some []\<rparr> \<and>
   currentMessageRef (readLoop jsonParse 1 streamBegun [brokenLine, brokenRest]) =
     Some \<lparr>role = Assistant, content = [], thinking = Some []\<rparr>"
proof -
  have e: "brokenLine @ brokenRest = textLine"
    by (simp add: brokenLine_def brokenRest_def textLine_def)
  from e whole_events whole_run broken_events broken_run show ?thesis by simp
qed

text \<open>
  What does hold: chunks that are cut at line ends decode as their concatenation does,
  to the same events and to the same state, since the empty piece after a final line
  feed is ignored.
\<close>

lemma chunking_at_line_ends:
  "lineAligned chunks \<Longrightarrow>
     streamEvents parse chunks = streamEvents parse [concat chunks] \<and>
     readLoop parse n st chunks = readLoop parse n st [concat chunks]"
proof (induction chunks arbitrary: st)
  case Nil
  have "split (CHR 0x0A) [] = [[]]" by simp
  then show ?case
    by (simp add: streamEvents_def chunkEvents_def processChunk_def lineEvents_empty processLine_empty)
next
  case (Cons c cs)
  show ?case
  proof (cases "cs = []")
    case True
    then show ?thesis by simp
  next
    case False
    then have c: "c \<noteq> []" "last c = CHR 0x0A" and rest: "lineAligned cs"
      using Cons.prems by (simp_all add: lineAligned_def)
    then obtain a where a: "c = a @ [CHR 0x0A]"
      by (metis append_butlast_last_id)
    have ev: "streamEvents parse (c # cs) = chunkEvents parse c @ streamEvents parse [concat cs]"
      using Cons.IH[OF rest] by (simp add: streamEvents_def)
    have st: "readLoop parse n st (c # cs) =
        processChunk parse n (processChunk parse n st c) (concat cs)"
      using Cons.IH[OF rest, of "processChunk parse n st c"] by simp
    show ?thesis
      using ev st chunkEvents_join[of parse a "concat cs"] processChunk_join[of parse n st a "concat cs"] a
      by (simp add: streamEvents_def)
  qed
qed




section \<open>Properties of the scroll coordinator\<close>

text \<open>
  Claim C7, as the code has it. A scroll event sets \<open>isAutoScrollEnabled\<close> to whether
  the gap below the viewport is under 50 pixels. While the flag is false, a growth burst
  of any length changes the transcript and nothing else: no scroll is requested. The
  operations keep at most one request pending. While the flag is true, every growth
  cancels the pending request and makes a new one, so after a burst exactly one is
  pending, none has fired yet, and the next animation frame performs exactly one
  scroll to the end; unless the \<^verbatim>\<open>finally\<close> block of \<^verbatim>\<open>handleSubmit\<close> runs before
  that frame: it cancels the request, and then no scroll is performed.
\<close>

theorem scroll_coordinator:
  "(\<not> isScrolling st \<longrightarrow>
      isAutoScrollEnabled (handleScroll scrollTop scrollHeight clientHeight st) =
        (scrollHeight - (scrollTop + clientHeight) < 50)) \<and>
   (\<not> isAutoScrollEnabled st \<longrightarrow>
      growthBurst mss st = st\<lparr>messages := last (messages st # mss)\<rparr>) \<and>
   (atMostOnePending st \<longrightarrow>
      atMostOnePending (contentGrowth ms st) \<and> atMostOnePending (animationFrame st) \<and>
      atMostOnePending (submitFinally st)) \<and>
   (isAutoScrollEnabled st \<and> atMostOnePending st \<and> mss \<noteq> [] \<and> list_all (\<lambda>ms. ms \<noteq> []) mss \<longrightarrow>
      length (pendingFrames (growthBurst mss st)) = 1 \<and>
      scrollToCalls (growthBurst mss st) = scrollToCalls st \<and>
      scrollToCalls (animationFrame (growthBurst mss st)) = Suc (scrollToCalls st) \<and>
      pendingFrames (animationFrame (growthBurst mss st)) = [] \<and>
      scrollToCalls (animationFrame (submitFinally (growthBurst mss st))) = scrollToCalls st)"
proof -
  have a: "\<not> isScrolling st \<longrightarrow>
      isAutoScrollEnabled (handleScroll scrollTop scrollHeight clientHeight st) =
        (scrollHeight - (scrollTop + clientHeight) < 50)"
    by (simp add: handleScroll_def)
  have b: "\<not> isAutoScrollEnabled st \<longrightarrow>
      growthBurst mss st = st\<lparr>messages := last (messages st # mss)\<rparr>"
    using growthBurst_disabled by blast
  have c: "length (pendingFrames (growthBurst mss st)) = 1 \<and>
      scrollToCalls (growthBurst mss st) = scrollToCalls st \<and>
      scrollToCalls (animationFrame (growthBurst mss st)) = Suc (scrollToCalls st) \<and>
      pendingFrames (animationFrame (growthBurst mss st)) = [] \<and>
      scrollToCalls (animationFrame (submitFinally (growthBurst mss st))) = scrollToCalls st"
    if h: "isAutoScrollEnabled st" "atMostOnePending st" "mss \<noteq> []" "list_all (\<lambda>ms. ms \<noteq> []) mss"
  proof -
    let ?s = "growthBurst mss st"
    from growthBurst_enabled[OF h]
    have p: "pendingFrames ?s = [frameCounter ?s]" and r: "scrollRef ?s = Some (frameCounter ?s)"
      and k: "scrollToCalls ?s = scrollToCalls st" by simp_all
    from submitFinally_cancels[OF p r] animationFrame_none[of "submitFinally ?s"]
    have "scrollToCalls (animationFrame (submitFinally ?s)) = scrollToCalls ?s" by simp
    with animationFrame_one[OF p] p k show ?thesis by simp
  qed
  have d: "atMostOnePending st \<longrightarrow>
      atMostOnePending (contentGrowth ms st) \<and> atMostOnePending (animationFrame st) \<and>
      atMostOnePending (submitFinally st)"
    using atMostOnePending_kept by blast
  from a b c d show ?thesis by blast
qed

theorem scroll_coordinator_witness:
  "isAutoScrollEnabled viewing \<and> atMostOnePending viewing \<and>
   length (pendingFrames (growthBurst [[placeholder], [placeholder, placeholder]] viewing)) = 1 \<and>
   scrollToCalls (animationFrame (growthBurst [[placeholder], [placeholder, placeholder]] viewing)) = 1 \<and>
   \<not> isAutoScrollEnabled (handleScroll 0 1000 400 viewing) \<and>
   growthBurst [[placeholder], [placeholder, placeholder]] (handleScroll 0 1000 400 viewing) =
     (handleScroll 0 1000 400 viewing)\<lparr>messages := [placeholder, placeholder]\<rparr>"
proof -
  have v: "isAutoScrollEnabled viewing" "atMostOnePending viewing" "scrollToCalls viewing = 0"
    "\<not> isScrolling viewing"
    by (simp_all add: viewing_def initialState_def atMostOnePending_def)
  have m: "[[placeholder], [placeholder, placeholder]] \<noteq> []"
    "list_all (\<lambda>ms. ms \<noteq> []) [[placeholder], [placeholder, placeholder]]"
    by simp_all
  note t = scroll_coordinator[where st = viewing and mss = "[[placeholder], [placeholder, placeholder]]"]
  from t v m have 1: "length (pendingFrames (growthBurst [[placeholder], [placeholder, placeholder]] viewing)) = 1"
    and 2: "scrollToCalls (animationFrame (growthBurst [[placeholder], [placeholder, placeholder]] viewing)) = 1"
    by simp_all
  from scroll_coordinator[where st = viewing and scrollTop = 0 and scrollHeight = 1000 and clientHeight = 400] v
  have 3: "\<not> isAutoScrollEnabled (handleScroll 0 1000 400 viewing)" by simp
  from scroll_coordinator[where st = "handleScroll 0 1000 400 viewing"
      and mss = "[[placeholder], [placeholder, placeholder]]"] 3
  have 4: "growthBurst [[placeholder], [placeholder, placeholder]] (handleScroll 0 1000 400 viewing) =
     (handleScroll 0 1000 400 viewing)\<lparr>messages := [placeholder, placeholder]\<rparr>"
    by simp
  from v 1 2 3 4 show ?thesis by blast
qed

text \<open>
  The claim as stated fails: with the view at the bottom, a growth whose request is
  cancelled by the clean-up of the submission is followed by no scroll at all.
\<close>

theorem scroll_cancelled_counterexample:
  "isAutoScrollEnabled viewing \<and>
   pendingFrames (growthBurst [[placeholder]] viewing) = [1] \<and>
   scrollToCalls (animationFrame (submitFinally (growthBurst [[placeholder]] viewing))) = 0"
  by (simp add: viewing_def initialState_def growthBurst_def contentGrowth_def autoScrollEffect_def
      scrollToBottom_def submitFinally_def cancelAnimationFrame_def animationFrame_def Let_def)

end
